theory Spec2Isabelle
  imports Complex_Main
begin

section \<open>Role catalogue and player state (game.py, ROLES and class Player)\<close>

text \<open>
  The keys of the \<^verbatim>\<open>ROLES\<close> dictionary form a closed set of five names; the
  constructor \<^verbatim>\<open>Player(name, role_name)\<close> looks \<^verbatim>\<open>role_name\<close> up in it, and
  \<^verbatim>\<open>pick_role\<close> only ever returns one of the keys.
\<close>

datatype role = Soldier | Sniper | Medic | Engineer | Intelligence_Officer

fun role_inventory :: "role \<Rightarrow> string list" where
  "role_inventory Soldier = [''Standard Rifle'', ''Combat Knife'']"
| "role_inventory Sniper = [''Sniper Rifle'', ''Camouflage'']"
| "role_inventory Medic = [''Pistol'', ''Medical Kit'']"
| "role_inventory Engineer = [''Pistol'', ''Toolkit'']"
| "role_inventory Intelligence_Officer = [''Silenced Pistol'', ''Encrypted Radio'']"

fun role_accuracy_bonus :: "role \<Rightarrow> int" where
  "role_accuracy_bonus Soldier = 0"
| "role_accuracy_bonus Sniper = 15"
| "role_accuracy_bonus Medic = - 5"
| "role_accuracy_bonus Engineer = - 2"
| "role_accuracy_bonus Intelligence_Officer = - 1"

fun role_special :: "role \<Rightarrow> string" where
  "role_special Soldier = ''Steady: small chance to dodge incoming fire.''"
| "role_special Sniper = ''One-time guaranteed long-range shot (high accuracy).''"
| "role_special Medic = ''Field Heal: restore 1 HP once per mission.''"
| "role_special Engineer = ''Disarm: chance to avoid traps and ambushes.''"
| "role_special Intelligence_Officer = ''Intel: occasional hints about the safest route.''"

definition ENCOUNTERS :: "string list" where
  "ENCOUNTERS = [''village_checkpoint'', ''mountain_pass'', ''abandoned_base'',
     ''night_raze'', ''convoy_ambush'']"

record player =
  name :: string
  role :: role
  hp :: int
  inventory :: "string list"
  accuracy_bonus :: int
  special :: string
  mission_heals :: int
  sniper_special_used :: bool
  alive :: bool
  missions_completed :: int

text \<open>\<^verbatim>\<open>Player.__init__\<close>.\<close>

definition Player :: "string \<Rightarrow> role \<Rightarrow> player" where
  "Player nm role_name =
     \<lparr> name = nm, role = role_name, hp = 3,
       inventory = role_inventory role_name,
       accuracy_bonus = role_accuracy_bonus role_name,
       special = role_special role_name,
       mission_heals = (if role_name = Medic then 1 else 0),
       sniper_special_used = False,
       alive = True,
       missions_completed = 0 \<rparr>"

section \<open>The environment: random source, player input, console\<close>

text \<open>
  The lines written by \<^verbatim>\<open>slow_print\<close> that the properties below speak about are
  kept as events, in the order in which they are printed. The remaining narration
  has no effect on the state or on the control flow and is left out.
\<close>

datatype event =
    Combat_Initiated
  | Instant_Fatality
  | Medic_Heal
  | Perfect_Headshot
  | Use_Med_Pack
  | Controlled_Burst
  | No_Useful_Action
  | Hit_Target int int
  | Miss_Shot
  | Lethal_Headshot
  | Take_Damage int int
  | Heal int int
  | Sniper_Opens_Fire
  | Find_Rations
  | Mission_Accomplished
  | Fallen
  | Push_On
  | Extraction_Begins
  | Tragic_Luck
  | Home_Safely
  | Wounds_Toll
  | Game_Over
  | Final_HP int
  | Status_Survived
  | Status_Deceased

text \<open>
  The program is driven by three sources it does not control. Each is a sequence
  given in advance together with the number of elements consumed so far:
  \<^item> \<open>draws\<close>: the successive results of \<^verbatim>\<open>random.random()\<close>. Python returns
    doubles of the form \<open>k / 2 ^ 53\<close> with \<open>0 \<le> k < 2 ^ 53\<close>; the model admits every
    real number, so it covers every value the program can receive;
  \<^item> \<open>picks\<close>: the successive raw values behind \<^verbatim>\<open>random.choice\<close> and
    \<^verbatim>\<open>random.randint\<close>, reduced into the requested range on use;
  \<^item> \<open>keys\<close>: the successive indices returned by \<^verbatim>\<open>choose\<close>, which re-prompts
    until the entry is a valid option number and returns it less one (the model's
    \<open>choose_option\<close>; the name \<open>choose\<close> is taken by the binomial coefficient).
  \<open>out\<close> is the console.
\<close>

record world =
  draws :: "nat \<Rightarrow> real"
  drawn :: nat
  picks :: "nat \<Rightarrow> nat"
  picked :: nat
  keys :: "nat \<Rightarrow> nat"
  asked :: nat
  out :: "event list"

definition say :: "event \<Rightarrow> world \<Rightarrow> world" where
  "say e w = w\<lparr>out := out w @ [e]\<rparr>"

text \<open>
  \<^verbatim>\<open>roll(pct)\<close> is \<^verbatim>\<open>random.random() < pct / 100.0\<close>, a comparison of two doubles.
  Every call passes an integer for \<^verbatim>\<open>pct\<close>, so the right-hand side is the IEEE 754
  quotient of the integer (converted exactly) and 100: the double nearest to the
  rational \<open>pct / 100\<close>, with ties going to the even significand. It is computed
  here in integers. \<open>round_half_even_div a b\<close> is the integer nearest to \<open>a / b\<close>
  for \<open>b > 0\<close>; \<open>binade_up\<close> counts the doublings that bring \<open>a / b\<close> to at
  least \<open>2 ^ 52\<close>, so that the rounded value is a 53-bit significand
  (\<open>a / b \<ge> 1 / 100\<close> needs at most 59 of them). \<open>float_quotient pct\<close> is then
  the value of the double \<^verbatim>\<open>pct / 100.0\<close> for every integer below \<open>2 ^ 53\<close> in
  absolute value, which is where the conversion of \<^verbatim>\<open>pct\<close> to a double is exact.
  The comparison of two doubles is the comparison of their values.
\<close>

definition round_half_even_div :: "int \<Rightarrow> int \<Rightarrow> int" where
  "round_half_even_div a b =
     (let q = a div b; r = a mod b
      in if 2 * r < b then q else if b < 2 * r then q + 1 else if even q then q else q + 1)"

fun binade_up :: "nat \<Rightarrow> int \<Rightarrow> int \<Rightarrow> nat" where
  "binade_up 0 a b = 0"
| "binade_up (Suc n) a b = (if b * 2 ^ 52 \<le> a then 0 else Suc (binade_up n (2 * a) b))"

definition nearest_double :: "int \<Rightarrow> int \<Rightarrow> real" where
  "nearest_double a b =
     (let s = binade_up 64 a b in real_of_int (round_half_even_div (a * 2 ^ s) b) / 2 ^ s)"

definition float_quotient :: "int \<Rightarrow> real" where
  "float_quotient pct =
     (if pct = 0 then 0
      else if 0 < pct then nearest_double pct 100
      else - nearest_double (- pct) 100)"

definition roll :: "int \<Rightarrow> world \<Rightarrow> bool \<times> world" where
  "roll pct w = (draws w (drawn w) < float_quotient pct, w\<lparr>drawn := Suc (drawn w)\<rparr>)"

text \<open>
  \<^verbatim>\<open>c and roll(pct)\<close> and \<^verbatim>\<open>c or roll(pct)\<close>: Python evaluates the roll, and so
  consumes a draw, only when the first operand does not decide the result.
\<close>

definition roll_if :: "bool \<Rightarrow> int \<Rightarrow> world \<Rightarrow> bool \<times> world" where
  "roll_if c pct w = (if c then roll pct w else (False, w))"

definition roll_unless :: "bool \<Rightarrow> int \<Rightarrow> world \<Rightarrow> bool \<times> world" where
  "roll_unless c pct w = (if c then (True, w) else roll pct w)"

definition random_choice :: "'a list \<Rightarrow> world \<Rightarrow> 'a \<times> world" where
  "random_choice xs w = (xs ! (picks w (picked w) mod length xs), w\<lparr>picked := Suc (picked w)\<rparr>)"

definition randint :: "int \<Rightarrow> int \<Rightarrow> world \<Rightarrow> int \<times> world" where
  "randint a b w = (a + int (picks w (picked w)) mod (b - a + 1), w\<lparr>picked := Suc (picked w)\<rparr>)"

definition choose_option :: "world \<Rightarrow> nat \<times> world" where
  "choose_option w = (keys w (asked w), w\<lparr>asked := Suc (asked w)\<rparr>)"

section \<open>Damage and healing (Player.take_damage, Player.heal)\<close>

definition take_damage :: "int \<Rightarrow> player \<Rightarrow> world \<Rightarrow> player \<times> world" where
  "take_damage amount p w =
     (let p1 = p\<lparr>hp := hp p - amount\<rparr>;
          w1 = say (Take_Damage amount (hp p1)) w
      in (if hp p1 \<le> 0 then p1\<lparr>alive := False\<rparr> else p1, w1))"

definition heal :: "int \<Rightarrow> player \<Rightarrow> world \<Rightarrow> player \<times> world" where
  "heal amount p w =
     (let p1 = p\<lparr>hp := min 3 (hp p + amount)\<rparr>
      in (p1, say (Heal amount (hp p1)) w))"

definition loot :: "string \<Rightarrow> player \<Rightarrow> player" where
  "loot item p = p\<lparr>inventory := inventory p @ [item]\<rparr>"

section \<open>Combat (combat_encounter)\<close>

text \<open>
  One pass through the body of the \<^verbatim>\<open>while\<close> loop either ends in the next test
  of the loop condition (\<open>Continue\<close>, with the enemy's hit points) or leaves the
  function through a \<^verbatim>\<open>return\<close> (\<open>Return\<close>).
\<close>

datatype round_result = Continue int player world | Return bool player world

text \<open>\<^verbatim>\<open>if action == 4\<close>: the attempt to flee.\<close>

definition attempt_flee :: "int \<Rightarrow> int \<Rightarrow> player \<Rightarrow> world \<Rightarrow> round_result" where
  "attempt_flee difficulty enemy_hp p w =
     (case roll (30 - difficulty * 5) w of (fled, w1) \<Rightarrow>
        if fled then Return True p w1
        else (case roll (10 + difficulty * 10) w1 of (crit, w2) \<Rightarrow>
          if crit then (case take_damage 1 p w2 of (p1, w3) \<Rightarrow> Continue enemy_hp p1 w3)
          else Continue enemy_hp p w2))"

text \<open>
  \<^verbatim>\<open>if action == 5\<close>, the chain that sets \<^verbatim>\<open>used\<close>: Medic heal, Sniper shot,
  Med Pack, Assault Rifle burst. The result is \<^verbatim>\<open>used\<close>, the enemy's hit points
  and the state.
\<close>

definition use_special :: "int \<Rightarrow> player \<Rightarrow> world \<Rightarrow> bool \<times> int \<times> player \<times> world" where
  "use_special enemy_hp p w =
     (if role p = Medic \<and> mission_heals p > 0 then
        (case heal 1 p (say Medic_Heal w) of (p1, w1) \<Rightarrow>
           (True, enemy_hp, p1\<lparr>mission_heals := mission_heals p1 - 1\<rparr>, w1))
      else if role p = Sniper \<and> \<not> sniper_special_used p then
        (True, 0, p\<lparr>sniper_special_used := True\<rparr>, say Perfect_Headshot w)
      else if ''Med Pack'' \<in> set (inventory p) then
        (case heal 1 p (say Use_Med_Pack w) of (p1, w1) \<Rightarrow>
           (True, enemy_hp, p1\<lparr>inventory := remove1 ''Med Pack'' (inventory p1)\<rparr>, w1))
      else
        (case roll_if (''Assault Rifle'' \<in> set (inventory p)) 60 w of (burst, w1) \<Rightarrow>
           if burst then (True, 0, p, say Controlled_Burst w1)
           else (False, enemy_hp, p, w1)))"

text \<open>\<^verbatim>\<open>if used\<close>: the enemy may retaliate, then \<^verbatim>\<open>continue\<close>.\<close>

definition retaliate :: "int \<Rightarrow> int \<Rightarrow> player \<Rightarrow> world \<Rightarrow> round_result" where
  "retaliate difficulty enemy_hp p w =
     (case roll_if (enemy_hp > 0) (40 + difficulty * 10) w of (hit, w1) \<Rightarrow>
        if hit then (case take_damage 1 p w1 of (p1, w2) \<Rightarrow> Continue enemy_hp p1 w2)
        else Continue enemy_hp p w1)"

text \<open>\<^verbatim>\<open>if action == 3\<close>: take cover.\<close>

definition take_cover :: "int \<Rightarrow> int \<Rightarrow> player \<Rightarrow> world \<Rightarrow> round_result" where
  "take_cover difficulty enemy_hp p w =
     (case roll (20 + difficulty * 10) w of (hit, w1) \<Rightarrow>
        (let e1 = (if hit then enemy_hp - 1 else enemy_hp)
         in (case roll (30 + difficulty * 20) w1 of (grazed, w2) \<Rightarrow>
               if grazed then (case take_damage 1 p w2 of (p1, w3) \<Rightarrow> Continue e1 p1 w3)
               else Continue e1 p w2)))"

text \<open>
  The shooting logic. \<^verbatim>\<open>base_hit_chance\<close> is adjusted for the actions 1, 0 and 2
  and left as it is for every other action that reaches this point.
\<close>

definition base_hit_chance :: "nat \<Rightarrow> int \<Rightarrow> player \<Rightarrow> int" where
  "base_hit_chance action difficulty p =
     (let b = 50 + accuracy_bonus p - difficulty * 5
      in if action = 1 then b + 5
         else if action = 0 then b - 5
         else if action = 2 then b - 2
         else b)"

definition shoot :: "nat \<Rightarrow> int \<Rightarrow> int \<Rightarrow> player \<Rightarrow> world \<Rightarrow> int \<times> world" where
  "shoot action difficulty enemy_hp p w =
     (case roll (max 5 (min 95 (base_hit_chance action difficulty p))) w of (hit, w1) \<Rightarrow>
        if hit then
          (case roll_if (''Assault Rifle'' \<in> set (inventory p)) 40 w1 of (heavy, w2) \<Rightarrow>
             let dmg = (if heavy then 2 else 1)
             in (enemy_hp - dmg, say (Hit_Target dmg (enemy_hp - dmg)) w2))
        else (enemy_hp, say Miss_Shot w1))"

text \<open>The enemy's counterattack after the shooting logic.\<close>

definition enemy_counterattack :: "int \<Rightarrow> int \<Rightarrow> player \<Rightarrow> world \<Rightarrow> round_result" where
  "enemy_counterattack difficulty enemy_hp p w =
     (if enemy_hp > 0 then
        (case roll_if (role p = Soldier) 20 w of (dodge, w1) \<Rightarrow>
           if dodge then Continue enemy_hp p w1
           else (case roll (40 + difficulty * 15) w1 of (hit, w2) \<Rightarrow>
             if hit then
               (case roll 3 w2 of (lethal, w3) \<Rightarrow>
                  if lethal then Return False (p\<lparr>alive := False\<rparr>) (say Lethal_Headshot w3)
                  else (case take_damage 1 p w3 of (p1, w4) \<Rightarrow> Continue enemy_hp p1 w4))
             else Continue enemy_hp p w2))
      else Continue enemy_hp p w)"

definition shoot_and_counter :: "nat \<Rightarrow> int \<Rightarrow> int \<Rightarrow> player \<Rightarrow> world \<Rightarrow> round_result" where
  "shoot_and_counter action difficulty enemy_hp p w =
     (case shoot action difficulty enemy_hp p w of (e1, w1) \<Rightarrow>
        enemy_counterattack difficulty e1 p w1)"

text \<open>
  The body of the loop. The four blocks are tested in the order of the source:
  action 4, action 5, action 3, then the shooting logic. The block of action 5
  ends in \<^verbatim>\<open>continue\<close> only when \<^verbatim>\<open>used\<close> is true; otherwise it prints its
  notice and control runs on to the test \<^verbatim>\<open>action == 3\<close>, which fails, and then
  into the shooting logic.
\<close>

definition combat_round :: "int \<Rightarrow> int \<Rightarrow> player \<Rightarrow> world \<Rightarrow> round_result" where
  "combat_round difficulty enemy_hp p w =
     (case choose_option w of (action, w1) \<Rightarrow>
        if action = 4 then attempt_flee difficulty enemy_hp p w1
        else if action = 5 then
          (case use_special enemy_hp p w1 of (used, e1, p1, w2) \<Rightarrow>
             if used then retaliate difficulty e1 p1 w2
             else shoot_and_counter action difficulty e1 p1 (say No_Useful_Action w2))
        else if action = 3 then take_cover difficulty enemy_hp p w1
        else shoot_and_counter action difficulty enemy_hp p w1)"

text \<open>The code after the loop.\<close>

definition post_combat :: "int \<Rightarrow> player \<Rightarrow> world \<Rightarrow> bool \<times> player \<times> world" where
  "post_combat difficulty p w =
     (if alive p then
        (case roll (50 + difficulty * 10) w of (found, w1) \<Rightarrow>
           if found then
             (case random_choice [''Ammo'', ''Med Pack'', ''Intel Documents'',
                                  ''Assault Rifle'', ''Rations''] w1 of
                (item, w2) \<Rightarrow> (True, loot item p, w2))
           else (True, p, w1))
      else (False, p, w))"

text \<open>
  The \<^verbatim>\<open>while enemy_hp > 0 and player.alive\<close> loop may run for ever (both sides
  can miss in every round). The first argument bounds the number of rounds; the
  result \<open>None\<close> says that the loop was still running when the bound was reached,
  and comes with the state reached by then.
\<close>

fun combat_loop :: "nat \<Rightarrow> int \<Rightarrow> int \<Rightarrow> player \<Rightarrow> world \<Rightarrow> bool option \<times> player \<times> world" where
  "combat_loop 0 difficulty enemy_hp p w =
     (if enemy_hp > 0 \<and> alive p then (None, p, w)
      else (case post_combat difficulty p w of (b, p1, w1) \<Rightarrow> (Some b, p1, w1)))"
| "combat_loop (Suc n) difficulty enemy_hp p w =
     (if enemy_hp > 0 \<and> alive p then
        (case combat_round difficulty enemy_hp p w of
           Return b p1 w1 \<Rightarrow> (Some b, p1, w1)
         | Continue e1 p1 w1 \<Rightarrow> combat_loop n difficulty e1 p1 w1)
      else (case post_combat difficulty p w of (b, p1, w1) \<Rightarrow> (Some b, p1, w1)))"

definition combat_encounter :: "nat \<Rightarrow> player \<Rightarrow> int \<Rightarrow> world \<Rightarrow> bool option \<times> player \<times> world" where
  "combat_encounter fuel p difficulty w =
     (case roll 10 (say Combat_Initiated w) of (fatal, w1) \<Rightarrow>
        if fatal then (Some False, p\<lparr>alive := False\<rparr>, say Instant_Fatality w1)
        else combat_loop fuel difficulty difficulty p w1)"

section \<open>The five encounters\<close>

definition village_checkpoint :: "nat \<Rightarrow> player \<Rightarrow> world \<Rightarrow> bool option \<times> player \<times> world" where
  "village_checkpoint fuel p w =
     (case choose_option w of (choice, w1) \<Rightarrow>
        if choice = 0 then
          (case roll_unless (role p = Intelligence_Officer) 65 w1 of (talked, w2) \<Rightarrow>
             if talked then (Some True, loot ''Med Pack'' p, w2)
             else combat_encounter fuel p 1 w2)
        else if choice = 1 then
          (case roll 40 w1 of (ambush, w2) \<Rightarrow>
             if ambush then combat_encounter fuel p 2 w2
             else (Some True, loot ''Ammo'' p, w2))
        else combat_encounter fuel p 3 w1)"

text \<open>
  In the branch \<^verbatim>\<open>choice == 0\<close> of \<^verbatim>\<open>mountain_pass\<close> the body of \<^verbatim>\<open>if roll(30):\<close>
  is the single statement that prints "A sniper opens fire". The text
  \<^verbatim>\<open>return combat_encounter(player, difficulty=2)\<close> stands at the end of a comment
  line (line 362 of game.py) and is not executed, so control continues with the
  ration packs whatever the roll gave.
\<close>

definition mountain_pass :: "nat \<Rightarrow> player \<Rightarrow> world \<Rightarrow> bool option \<times> player \<times> world" where
  "mountain_pass fuel p w =
     (case choose_option w of (choice, w1) \<Rightarrow>
        if choice = 0 then
          (case roll_if (role p = Sniper) 50 w1 of (spotted, w2) \<Rightarrow>
             if spotted then (Some True, p, w2)
             else (case roll 30 w2 of (fire, w3) \<Rightarrow>
               let w4 = (if fire then say Sniper_Opens_Fire w3 else w3)
               in (Some True, loot ''Rations'' p, say Find_Rations w4)))
        else if choice = 1 then
          (if ''Encrypted Radio'' \<in> set (inventory p) \<or> role p = Intelligence_Officer
           then (Some True, p, w1)
           else combat_encounter fuel p 2 w1)
        else
          (case roll_if (role p = Engineer) 70 w1 of (disarmed, w2) \<Rightarrow>
             if disarmed then (Some True, loot ''IED Components'' p, w2)
             else (case roll 40 w2 of (trap, w3) \<Rightarrow>
               if trap then (case take_damage 1 p w3 of (p1, w4) \<Rightarrow> (Some (alive p1), p1, w4))
               else (Some True, p, w3))))"

definition abandoned_base :: "nat \<Rightarrow> player \<Rightarrow> world \<Rightarrow> bool option \<times> player \<times> world" where
  "abandoned_base fuel p w =
     (case choose_option w of (choice, w1) \<Rightarrow>
        if choice = 0 then
          (case roll 50 w1 of (cache, w2) \<Rightarrow>
             if cache then (Some True, loot ''Assault Rifle'' p, w2)
             else combat_encounter fuel p 3 w2)
        else if choice = 1 then (Some True, loot ''Handful of Ammo'' p, w1)
        else combat_encounter fuel p 2 w1)"

definition night_raze :: "nat \<Rightarrow> player \<Rightarrow> world \<Rightarrow> bool option \<times> player \<times> world" where
  "night_raze fuel p w =
     (case choose_option w of (choice, w1) \<Rightarrow>
        if choice = 0 then combat_encounter fuel p 3 w1
        else if choice = 1 then
          (case roll_unless (role p = Sniper \<or> role p = Intelligence_Officer) 55 w1 of
             (stealth, w2) \<Rightarrow>
               if stealth then (Some True, loot ''Intel Documents'' p, w2)
               else combat_encounter fuel p 3 w2)
        else
          (case roll 50 w1 of (backup, w2) \<Rightarrow>
             if backup then (Some True, p, w2)
             else combat_encounter fuel p 2 w2))"

definition convoy_ambush :: "nat \<Rightarrow> player \<Rightarrow> world \<Rightarrow> bool option \<times> player \<times> world" where
  "convoy_ambush fuel p w =
     (case choose_option w of (choice, w1) \<Rightarrow>
        if choice = 0 then combat_encounter fuel p 3 w1
        else if choice = 1 then
          (case roll_if (role p = Soldier) 60 w1 of (flank, w2) \<Rightarrow>
             if flank then (Some True, loot ''Looted Supplies'' p, w2)
             else (case roll 40 w2 of (graze, w3) \<Rightarrow>
               (case take_damage 1 p w3 of (p1, w4) \<Rightarrow> (Some (alive p1), p1, w4))))
        else
          (if ''Encrypted Radio'' \<in> set (inventory p) \<or> role p = Intelligence_Officer
           then (Some True, p, w1)
           else combat_encounter fuel p 2 w1))"

text \<open>
  \<^verbatim>\<open>encounter_menu\<close>: the Intelligence Officer's hint consumes a draw and changes
  nothing else; an identifier outside the catalogue is skipped with success.
\<close>

definition encounter_menu :: "nat \<Rightarrow> player \<Rightarrow> string \<Rightarrow> world \<Rightarrow> bool option \<times> player \<times> world" where
  "encounter_menu fuel p encounter_id w =
     (case roll_if (role p = Intelligence_Officer) 40 w of (hint, w1) \<Rightarrow>
        if encounter_id = ''village_checkpoint'' then village_checkpoint fuel p w1
        else if encounter_id = ''mountain_pass'' then mountain_pass fuel p w1
        else if encounter_id = ''abandoned_base'' then abandoned_base fuel p w1
        else if encounter_id = ''night_raze'' then night_raze fuel p w1
        else if encounter_id = ''convoy_ambush'' then convoy_ambush fuel p w1
        else (Some True, p, w1))"

section \<open>Mission sequence, final resolution, summary, main\<close>

text \<open>The end of the loop body: \<^verbatim>\<open>if player.role == "Medic" and roll(30)\<close>.\<close>

definition post_mission_rest :: "player \<Rightarrow> world \<Rightarrow> player \<times> world" where
  "post_mission_rest p w =
     (case roll_if (role p = Medic) 30 w of (rest, w1) \<Rightarrow>
        if rest then heal 1 p w1 else (p, w1))"

text \<open>
  What \<^verbatim>\<open>play_mission_sequence\<close> does with the result of one mission, up to the
  end of the loop body: \<open>Inl\<close> is a \<^verbatim>\<open>return\<close> out of the loop, \<open>Inr\<close> the state with
  which the next iteration starts.
\<close>

definition after_mission :: "bool \<Rightarrow> player \<Rightarrow> world \<Rightarrow> (bool \<times> player \<times> world) + (player \<times> world)" where
  "after_mission success p w =
     (if \<not> alive p then Inl (False, p, say Fallen w)
      else if success then
        Inr (post_mission_rest (p\<lparr>missions_completed := missions_completed p + 1\<rparr>)
               (say Mission_Accomplished w))
      else if alive p then Inr (post_mission_rest p (say Push_On w))
      else Inl (False, p, w))"

text \<open>
  The \<^verbatim>\<open>for\<close> loop over the missions; the second argument is the number of
  missions still to play. The first argument is the bound on the rounds of each
  combat; when a combat reaches it the sequence stops there with \<open>None\<close>.
\<close>

fun play_mission_sequence :: "nat \<Rightarrow> nat \<Rightarrow> player \<Rightarrow> world \<Rightarrow> bool option \<times> player \<times> world" where
  "play_mission_sequence fuel 0 p w = (Some (alive p), p, w)"
| "play_mission_sequence fuel (Suc missions) p w =
     (case random_choice ENCOUNTERS w of (encounter, w1) \<Rightarrow>
        (case encounter_menu fuel p encounter w1 of
           (None, p1, w2) \<Rightarrow> (None, p1, w2)
         | (Some success, p1, w2) \<Rightarrow>
             (case after_mission success p1 w2 of
                Inl (b, p2, w3) \<Rightarrow> (Some b, p2, w3)
              | Inr (p2, w3) \<Rightarrow> play_mission_sequence fuel missions p2 w3)))"

text \<open>
  \<^verbatim>\<open>final_resolution\<close>: one \<^verbatim>\<open>random.randint(1, 100)\<close>, then the three-way test
  on its value.
\<close>

definition final_outcome :: "int \<Rightarrow> player \<Rightarrow> world \<Rightarrow> bool \<times> player \<times> world" where
  "final_outcome roll_val p w =
     (if roll_val \<le> 10 then (False, p\<lparr>alive := False\<rparr>, say Tragic_Luck w)
      else if roll_val \<le> 55 then (True, p, say Home_Safely w)
      else (False, p\<lparr>alive := False\<rparr>, say Wounds_Toll w))"

definition final_resolution :: "player \<Rightarrow> world \<Rightarrow> bool \<times> player \<times> world" where
  "final_resolution p w =
     (case randint 1 100 (say Extraction_Begins w) of (roll_val, w1) \<Rightarrow>
        final_outcome roll_val p w1)"

definition summary :: "player \<Rightarrow> world \<Rightarrow> world" where
  "summary p w =
     say (if alive p then Status_Survived else Status_Deceased)
       (say (Final_HP (max 0 (hp p))) w)"

text \<open>
  \<^verbatim>\<open>main\<close>, from the construction of the player on, with the name, the role and
  the number of missions as entered. The first component of the result says
  whether the program ran to its end within the bound on combat rounds. The test
  \<^verbatim>\<open>not survived_missions or not player.alive\<close> is written as the negation of a
  conjunction.
\<close>

definition main :: "nat \<Rightarrow> string \<Rightarrow> role \<Rightarrow> nat \<Rightarrow> world \<Rightarrow> bool \<times> player \<times> world" where
  "main fuel nm role_name missions w =
     (case play_mission_sequence fuel missions (Player nm role_name) w of
        (None, p, w1) \<Rightarrow> (False, p, w1)
      | (Some survived_missions, p, w1) \<Rightarrow>
          if \<not> (survived_missions \<and> alive p) then (True, p, summary p (say Game_Over w1))
          else (case final_resolution p w1 of
                  (survived_home, p1, w2) \<Rightarrow> (True, p1, summary p1 w2)))"

section \<open>Notions used in the statements and proofs\<close>

subsection \<open>Concrete environments and players\<close>

text \<open>
  An environment in which every draw of \<^verbatim>\<open>random.random()\<close> is \<open>d\<close>, every raw
  pick is \<open>k\<close> and every menu selection is the index \<open>c\<close>, with nothing consumed
  and nothing printed yet.
\<close>

definition constant_world :: "real \<Rightarrow> nat \<Rightarrow> nat \<Rightarrow> world" where
  "constant_world d k c =
     \<lparr> draws = (\<lambda>_. d), drawn = 0, picks = (\<lambda>_. k), picked = 0,
       keys = (\<lambda>_. c), asked = 0, out = [] \<rparr>"

text \<open>
  An environment like \<open>constant_world\<close> in which the menu selections are read
  from a list (and are the first option once the list is used up).
\<close>

definition keyed_world :: "real \<Rightarrow> nat \<Rightarrow> nat list \<Rightarrow> world" where
  "keyed_world d k ks =
     \<lparr> draws = (\<lambda>_. d), drawn = 0, picks = (\<lambda>_. k), picked = 0,
       keys = (\<lambda>i. if i < length ks then ks ! i else 0), asked = 0, out = [] \<rparr>"

text \<open>
  A Medic with two hit points whose \<open>alive\<close> flag has been cleared, as the
  instant-death events leave it.
\<close>

definition fallen_medic :: player where
  "fallen_medic = (Player ''Ann'' Medic)\<lparr>hp := 2, alive := False\<rparr>"

subsection \<open>Projections\<close>

text \<open>
  The player and the environment in the result of a round, and whether the round
  ended the combat with the result false.
\<close>

primrec rr_player :: "round_result \<Rightarrow> player" where
  "rr_player (Continue e p w) = p"
| "rr_player (Return b p w) = p"

primrec rr_world :: "round_result \<Rightarrow> world" where
  "rr_world (Continue e p w) = w"
| "rr_world (Return b p w) = w"

primrec rr_failed :: "round_result \<Rightarrow> bool" where
  "rr_failed (Continue e p w) = False"
| "rr_failed (Return b p w) = (\<not> b)"

text \<open>
  The player after \<open>take_damage\<close> and after \<open>heal\<close>: neither depends on the
  environment.
\<close>

definition damaged :: "int \<Rightarrow> player \<Rightarrow> player" where
  "damaged a p =
     (if hp p - a \<le> 0 then p\<lparr>hp := hp p - a, alive := False\<rparr>
      else p\<lparr>hp := hp p - a\<rparr>)"

definition healed :: "int \<Rightarrow> player \<Rightarrow> player" where
  "healed a p = p\<lparr>hp := min 3 (hp p + a)\<rparr>"

subsection \<open>Properties preserved by every state change\<close>

text \<open>
  Every function of the game changes the player and the console through a small
  number of elementary changes: printing a line, one point of damage, one point
  of healing, the Medic's heal with its charge, the Sniper's shot with its flag,
  a change of the inventory, the direct assignment \<^verbatim>\<open>alive = False\<close>, and a
  change of the mission counter. A property of the player and the console that
  each of these changes preserves is therefore preserved by every function. This
  is proved once below, for an arbitrary such property \<open>Q\<close> of the player and
  the list of printed lines, and then applied to the properties the claims speak
  about.

  With the flag \<open>strict\<close> set, the property needs to survive damage only when it
  is dealt to a living player, and the lemmas then ask that the player is alive
  wherever a function deals damage without testing this itself.
\<close>

text \<open>
  The lines that are printed without any condition on, or change of, the player's
  state. The others are tied to a state change (damage, healing, the two one-shot
  abilities) or belong to the code after the mission loop.
\<close>

fun plain :: "event \<Rightarrow> bool" where
  "plain Medic_Heal = False"
| "plain Perfect_Headshot = False"
| "plain (Take_Damage a h) = False"
| "plain (Heal a h) = False"
| "plain Push_On = False"
| "plain Extraction_Begins = False"
| "plain Tragic_Luck = False"
| "plain Home_Safely = False"
| "plain Wounds_Toll = False"
| "plain Game_Over = False"
| "plain (Final_HP v) = False"
| "plain Status_Survived = False"
| "plain Status_Deceased = False"
| "plain e = True"

definition stable :: "bool \<Rightarrow> (player \<Rightarrow> event list \<Rightarrow> bool) \<Rightarrow> bool" where
  "stable strict Q \<longleftrightarrow>
     (\<forall>p es e. Q p es \<longrightarrow> plain e \<longrightarrow> Q p (es @ [e])) \<and>
     (\<forall>p es. Q p es \<longrightarrow> (strict \<longrightarrow> alive p) \<longrightarrow>
        Q (damaged 1 p) (es @ [Take_Damage 1 (hp p - 1)])) \<and>
     (\<forall>p es. Q p es \<longrightarrow> Q (healed 1 p) (es @ [Heal 1 (min 3 (hp p + 1))])) \<and>
     (\<forall>p es. Q p es \<longrightarrow> role p = Medic \<longrightarrow> 0 < mission_heals p \<longrightarrow>
        Q ((healed 1 p)\<lparr>mission_heals := mission_heals p - 1\<rparr>)
          ((es @ [Medic_Heal]) @ [Heal 1 (min 3 (hp p + 1))])) \<and>
     (\<forall>p es. Q p es \<longrightarrow> role p = Sniper \<longrightarrow> \<not> sniper_special_used p \<longrightarrow>
        Q (p\<lparr>sniper_special_used := True\<rparr>) (es @ [Perfect_Headshot])) \<and>
     (\<forall>p es xs. Q p es \<longrightarrow> Q (p\<lparr>inventory := xs\<rparr>) es) \<and>
     (\<forall>p es. Q p es \<longrightarrow> Q (p\<lparr>alive := False\<rparr>) es) \<and>
     (\<forall>p es n. Q p es \<longrightarrow> Q (p\<lparr>missions_completed := n\<rparr>) es)"

text \<open>
  The two lines with which a combat can open.
\<close>

definition prelude :: "event \<Rightarrow> bool" where
  "prelude x \<longleftrightarrow> x = Combat_Initiated \<or> x = Instant_Fatality"

text \<open>
  The Medic's charge never goes below zero, the number of times the Medic's heal
  has been announced plus the charges left stays below a bound \<open>k\<close>, and the
  number of times the Sniper's shot has been announced, plus one while the shot is
  still unused, stays below a bound \<open>j\<close>.
\<close>

definition charges :: "int \<Rightarrow> nat \<Rightarrow> player \<Rightarrow> event list \<Rightarrow> bool" where
  "charges k j p es \<longleftrightarrow>
     0 \<le> mission_heals p \<and>
     int (count_list es Medic_Heal) + mission_heals p \<le> k \<and>
     count_list es Perfect_Headshot + (if sniper_special_used p then 0 else 1) \<le> j"

text \<open>
  The hit points are between 0 and 3, a living player has at least one, every
  damage line on the console reports one point of damage and a result between 0
  and 2, every heal line one point and a result between 1 and 3, and no summary
  line has been printed.
\<close>

fun hp_event_ok :: "event \<Rightarrow> bool" where
  "hp_event_ok (Take_Damage a h) = (a = 1 \<and> 0 \<le> h \<and> h \<le> 2)"
| "hp_event_ok (Heal a h) = (a = 1 \<and> 1 \<le> h \<and> h \<le> 3)"
| "hp_event_ok (Final_HP v) = False"
| "hp_event_ok e = True"

definition hp_ok :: "player \<Rightarrow> event list \<Rightarrow> bool" where
  "hp_ok p es \<longleftrightarrow>
     0 \<le> hp p \<and> hp p \<le> 3 \<and> (alive p \<longrightarrow> 1 \<le> hp p) \<and> (\<forall>e \<in> set es. hp_event_ok e)"

section \<open>The double quotients of the percentages used below\<close>

lemma binade_up_numeral:
  "binade_up (numeral k) a b =
     (if b * 2 ^ 52 \<le> a then 0 else Suc (binade_up (pred_numeral k) (2 * a) b))"
  by (simp add: numeral_eq_Suc)

text \<open>
  The doubles \<^verbatim>\<open>0.1\<close>, \<^verbatim>\<open>0.3\<close>, \<^verbatim>\<open>0.4\<close>, \<^verbatim>\<open>0.45\<close>, \<^verbatim>\<open>0.6\<close> and \<^verbatim>\<open>0.8\<close>, as Python's
  \<^verbatim>\<open>float.as_integer_ratio\<close> gives them.
\<close>

lemma float_quotient_values [simp]:
  "float_quotient 10 = 3602879701896397 / 36028797018963968"
  "float_quotient 30 = 5404319552844595 / 18014398509481984"
  "float_quotient 40 = 3602879701896397 / 9007199254740992"
  "float_quotient 45 = 8106479329266893 / 18014398509481984"
  "float_quotient 60 = 5404319552844595 / 9007199254740992"
  "float_quotient 80 = 3602879701896397 / 4503599627370496"
  by (simp_all add: float_quotient_def nearest_double_def round_half_even_div_def
        binade_up_numeral Let_def)

text \<open>
  On the values that \<^verbatim>\<open>random.random()\<close> returns, the roll at 10 percent succeeds
  exactly when the draw is below one tenth.
\<close>

lemma roll_10_on_grid:
  assumes "draws w (drawn w) = real k / 2 ^ 53"
  shows "fst (roll 10 w) = (draws w (drawn w) < 10 / 100)"
proof -
  have "(real k / 2 ^ 53 < 3602879701896397 / 36028797018963968)
      = (real (4 * k) < real 3602879701896397)"
    by (simp add: field_simps)
  also have "\<dots> = (4 * k < 3602879701896397)" by (simp only: of_nat_less_iff)
  also have "\<dots> = (10 * k < 9007199254740992)" by arith
  also have "\<dots> = (real (10 * k) < real 9007199254740992)" by (simp only: of_nat_less_iff)
  also have "\<dots> = (real k / 2 ^ 53 < 10 / 100)" by (simp add: field_simps)
  finally have e: "(real k / 2 ^ 53 < 3602879701896397 / 36028797018963968)
      = (real k / 2 ^ 53 < 10 / 100)" .
  have "fst (roll 10 w) = (draws w (drawn w) < 3602879701896397 / 36028797018963968)"
    by (simp only: roll_def fst_conv float_quotient_values)
  then show ?thesis by (simp only: assms e)
qed

text \<open>
  At 60 percent the double quotient lies below six tenths and is itself a value
  that \<^verbatim>\<open>random.random()\<close> can return; a draw equal to it fails the roll.
\<close>

lemma roll_60_at_threshold:
  "\<not> fst (roll 60 (w\<lparr>draws := (\<lambda>_. 5404319552844595 / 2 ^ 53)\<rparr>))"
  by (simp add: roll_def)

section \<open>Mountain pass, option 0\<close>

text \<open>
  Claim C1 says that in the Mountain Pass encounter with option 0, off the Sniper's
  auto-safe path, a successful 30 percent roll for sniper fire hands over to combat
  at difficulty 2, and that the rations are looted only when that roll fails.

  The code does not do this. For a Soldier who selects option 0 and whose draw is
  0.25 (below 0.30, so the sniper opens fire) \<open>mountain_pass\<close> prints the sniper
  line and then the ration line, appends the rations and returns true: one draw
  is consumed, no combat is started, and the result does not depend on the bound
  on combat rounds.
\<close>

theorem mountain_pass_sniper_fire_loots:
  "mountain_pass 0 (Player ''Ann'' Soldier) (constant_world (1/4) 0 0) =
     (Some True, loot ''Rations'' (Player ''Ann'' Soldier),
      (constant_world (1/4) 0 0)
        \<lparr>drawn := 1, asked := 1, out := [Sniper_Opens_Fire, Find_Rations]\<rparr>)"
  by (simp add: mountain_pass_def constant_world_def Player_def choose_option_def
        roll_if_def roll_def say_def loot_def)

section \<open>A special action that does not apply\<close>

text \<open>
  Claim C2 says that a round in which the player selects the special/item action
  and none of its four options applies gives the enemy a counterattack only: no
  shooting roll for the player, and the enemy's hit points unchanged by the player.

  The code does not do this. A Soldier with the starting inventory (no Med Pack,
  no Assault Rifle) selects action 5 against an enemy with one hit point at
  difficulty 1; the draw is 0.25. After the notice that no useful action was taken
  the round runs the shooting logic with the unadjusted hit chance 45: the draw
  is below it, the player hits, and the enemy's hit points fall from 1 to 0.
\<close>

theorem failed_special_still_shoots:
  "combat_round 1 1 (Player ''Ann'' Soldier) (constant_world (1/4) 0 5) =
     Continue 0 (Player ''Ann'' Soldier)
       ((constant_world (1/4) 0 5)
          \<lparr>drawn := 1, asked := 1, out := [No_Useful_Action, Hit_Target 1 0]\<rparr>)"
  by (simp add: combat_round_def use_special_def shoot_and_counter_def shoot_def
        base_hit_chance_def enemy_counterattack_def constant_world_def Player_def
        choose_option_def roll_if_def roll_def say_def)

section \<open>The hit chance of the centre shot\<close>

text \<open>
  Claim C7: for every difficulty and every accuracy bonus, the hit chance of the
  action "Shoot center" (index 1) before clamping is
  \<open>50 + accuracy_bonus - difficulty * 5 + 5\<close>, and the chance that is rolled is this
  value clamped into the range from 5 to 95: the enemy loses hit points exactly when
  the next draw is below the double that \<^verbatim>\<open>pct / 100.0\<close> gives for the clamped
  value, which is the comparison \<^verbatim>\<open>roll\<close> makes when called with it. The shot
  consumes that one draw, and a second one for the damage upgrade when it hits
  with an Assault Rifle in the inventory.
\<close>

theorem shoot_center_hit_chance:
  "base_hit_chance 1 d p = 50 + accuracy_bonus p - d * 5 + 5
   \<and> 5 \<le> max 5 (min 95 (base_hit_chance 1 d p))
   \<and> max 5 (min 95 (base_hit_chance 1 d p)) \<le> 95
   \<and> (fst (shoot 1 d e p w) < e) =
       (draws w (drawn w)
          < float_quotient (max 5 (min 95 (50 + accuracy_bonus p - d * 5 + 5))))
   \<and> (fst (shoot 1 d e p w) < e) =
       fst (roll (max 5 (min 95 (50 + accuracy_bonus p - d * 5 + 5))) w)
   \<and> drawn (snd (shoot 1 d e p w)) =
       (if fst (shoot 1 d e p w) < e \<and> ''Assault Rifle'' \<in> set (inventory p)
        then drawn w + 2 else drawn w + 1)"
  by (simp add: base_hit_chance_def shoot_def roll_def roll_if_def say_def split_beta Let_def)

section \<open>Healing is capped, the summary is floored\<close>

text \<open>
  Claim C8: for every hit point value and every amount, \<open>heal\<close> sets the hit points
  to \<open>min 3 (hp + amount)\<close>, so never above 3; and \<open>summary\<close> prints
  \<open>max 0 hp\<close> as the final hit points, which is never negative.
\<close>

theorem heal_capped_summary_floored:
  "hp (fst (heal a p w)) = min 3 (hp p + a)
   \<and> hp (fst (heal a p w)) \<le> 3
   \<and> out (summary p w) =
       out w @ [Final_HP (max 0 (hp p)), if alive p then Status_Survived else Status_Deceased]
   \<and> 0 \<le> max 0 (hp p)"
  by (simp add: heal_def summary_def say_def Let_def)

section \<open>Every function preserves what every state change preserves\<close>

lemma out_say [simp]: "out (say e w) = out w @ [e]"
  by (simp add: say_def)

lemma out_roll [simp]: "out (snd (roll pct w)) = out w"
  by (simp add: roll_def)

lemma out_roll_if [simp]: "out (snd (roll_if c pct w)) = out w"
  by (simp add: roll_if_def)

lemma out_roll_unless [simp]: "out (snd (roll_unless c pct w)) = out w"
  by (simp add: roll_unless_def)

lemma out_choose_option [simp]: "out (snd (choose_option w)) = out w"
  by (simp add: choose_option_def)

lemma out_random_choice [simp]: "out (snd (random_choice xs w)) = out w"
  by (simp add: random_choice_def)

lemma out_randint [simp]: "out (snd (randint a b w)) = out w"
  by (simp add: randint_def)

lemma take_damage_eq [simp]:
  "take_damage a p w = (damaged a p, say (Take_Damage a (hp p - a)) w)"
  by (simp add: take_damage_def damaged_def Let_def)

lemma heal_eq [simp]: "heal a p w = (healed a p, say (Heal a (min 3 (hp p + a))) w)"
  by (simp add: heal_def healed_def Let_def)

lemma damaged_simps [simp]:
  "hp (damaged a p) = hp p - a"
  "alive (damaged a p) = (alive p \<and> 0 < hp p - a)"
  "role (damaged a p) = role p"
  "mission_heals (damaged a p) = mission_heals p"
  "sniper_special_used (damaged a p) = sniper_special_used p"
  "inventory (damaged a p) = inventory p"
  by (auto simp add: damaged_def)

lemma healed_simps [simp]:
  "hp (healed a p) = min 3 (hp p + a)"
  "alive (healed a p) = alive p"
  "role (healed a p) = role p"
  "mission_heals (healed a p) = mission_heals p"
  "sniper_special_used (healed a p) = sniper_special_used p"
  "inventory (healed a p) = inventory p"
  by (simp_all add: healed_def)

lemma stable_say: "stable s Q \<Longrightarrow> Q p es \<Longrightarrow> plain e \<Longrightarrow> Q p (es @ [e])"
  by (simp add: stable_def)

lemma stable_damage:
  "stable s Q \<Longrightarrow> Q p es \<Longrightarrow> (s \<longrightarrow> alive p) \<Longrightarrow> Q (damaged 1 p) (es @ [Take_Damage 1 (hp p - 1)])"
  by (simp add: stable_def)

lemma stable_heal: "stable s Q \<Longrightarrow> Q p es \<Longrightarrow> Q (healed 1 p) (es @ [Heal 1 (min 3 (hp p + 1))])"
  by (simp add: stable_def)

lemma stable_medic:
  "stable s Q \<Longrightarrow> Q p es \<Longrightarrow> role p = Medic \<Longrightarrow> 0 < mission_heals p \<Longrightarrow>
     Q ((healed 1 p)\<lparr>mission_heals := mission_heals p - 1\<rparr>)
       ((es @ [Medic_Heal]) @ [Heal 1 (min 3 (hp p + 1))])"
  by (simp add: stable_def)

lemma stable_sniper:
  "stable s Q \<Longrightarrow> Q p es \<Longrightarrow> role p = Sniper \<Longrightarrow> \<not> sniper_special_used p \<Longrightarrow>
     Q (p\<lparr>sniper_special_used := True\<rparr>) (es @ [Perfect_Headshot])"
  by (simp add: stable_def)

lemma stable_inventory: "stable s Q \<Longrightarrow> Q p es \<Longrightarrow> Q (p\<lparr>inventory := xs\<rparr>) es"
  by (simp add: stable_def)

lemma stable_kill: "stable s Q \<Longrightarrow> Q p es \<Longrightarrow> Q (p\<lparr>alive := False\<rparr>) es"
  by (simp add: stable_def)

lemma stable_missions: "stable s Q \<Longrightarrow> Q p es \<Longrightarrow> Q (p\<lparr>missions_completed := n\<rparr>) es"
  by (simp add: stable_def)

lemmas stable_rules = stable_say stable_damage stable_heal stable_medic stable_sniper
  stable_inventory stable_kill stable_missions

subsection \<open>The rounds of a combat\<close>

lemma attempt_flee_stable:
  assumes st: "stable s Q" and q: "Q p (out w)" and a: "s \<longrightarrow> alive p"
  shows "Q (rr_player (attempt_flee d e p w)) (out (rr_world (attempt_flee d e p w)))"
  using q a by (simp add: attempt_flee_def split_beta stable_rules [OF st] del: append_assoc)

lemma use_special_stable:
  assumes st: "stable s Q" and q: "Q p (out w)"
  shows "Q (fst (snd (snd (use_special e p w)))) (out (snd (snd (snd (use_special e p w)))))"
  using q by (simp add: use_special_def split_beta stable_rules [OF st] del: append_assoc)

lemma alive_use_special [simp]: "alive (fst (snd (snd (use_special e p w)))) = alive p"
  by (simp add: use_special_def split_beta)

lemma retaliate_stable:
  assumes st: "stable s Q" and q: "Q p (out w)" and a: "s \<longrightarrow> alive p"
  shows "Q (rr_player (retaliate d e p w)) (out (rr_world (retaliate d e p w)))"
  using q a by (simp add: retaliate_def split_beta stable_rules [OF st] del: append_assoc)

lemma take_cover_stable:
  assumes st: "stable s Q" and q: "Q p (out w)" and a: "s \<longrightarrow> alive p"
  shows "Q (rr_player (take_cover d e p w)) (out (rr_world (take_cover d e p w)))"
  using q a by (simp add: take_cover_def split_beta Let_def stable_rules [OF st] del: append_assoc)

lemma shoot_stable:
  assumes st: "stable s Q" and q: "Q p (out w)"
  shows "Q p (out (snd (shoot a d e p w)))"
  using q by (simp add: shoot_def split_beta Let_def stable_rules [OF st] del: append_assoc)

lemma enemy_counterattack_stable:
  assumes st: "stable s Q" and q: "Q p (out w)" and a: "s \<longrightarrow> alive p"
  shows "Q (rr_player (enemy_counterattack d e p w)) (out (rr_world (enemy_counterattack d e p w)))"
  using q a by (simp add: enemy_counterattack_def split_beta stable_rules [OF st] del: append_assoc)

lemma shoot_and_counter_stable:
  assumes st: "stable s Q" and q: "Q p (out w)" and a: "s \<longrightarrow> alive p"
  shows "Q (rr_player (shoot_and_counter k d e p w)) (out (rr_world (shoot_and_counter k d e p w)))"
  unfolding shoot_and_counter_def split_beta
  by (rule enemy_counterattack_stable [OF st shoot_stable [OF st q] a])

lemma combat_round_stable:
  assumes st: "stable s Q" and q: "Q p (out w)" and a: "s \<longrightarrow> alive p"
  shows "Q (rr_player (combat_round d e p w)) (out (rr_world (combat_round d e p w)))"
proof -
  let ?w1 = "snd (choose_option w)"
  let ?u = "use_special e p ?w1"
  have q1: "Q p (out ?w1)" using q by simp
  have qu: "Q (fst (snd (snd ?u))) (out (snd (snd (snd ?u))))"
    by (rule use_special_stable [OF st q1])
  have au: "s \<longrightarrow> alive (fst (snd (snd ?u)))" using a by simp
  have qn: "Q (fst (snd (snd ?u))) (out (say No_Useful_Action (snd (snd (snd ?u)))))"
    using stable_say [OF st qu, of No_Useful_Action] by simp
  show ?thesis
    unfolding combat_round_def split_beta
    by (simp add: attempt_flee_stable [OF st q1 a] take_cover_stable [OF st q1 a]
          shoot_and_counter_stable [OF st q1 a] retaliate_stable [OF st qu au]
          shoot_and_counter_stable [OF st qn au])
qed

subsection \<open>Combat and the encounters\<close>

lemma post_combat_stable:
  assumes st: "stable s Q" and q: "Q p (out w)"
  shows "Q (fst (snd (post_combat d p w))) (out (snd (snd (post_combat d p w))))"
  using q by (simp add: post_combat_def loot_def split_beta stable_rules [OF st] del: append_assoc)

lemma combat_loop_stable:
  assumes st: "stable s Q"
  shows "Q p (out w) \<Longrightarrow> Q (fst (snd (combat_loop n d e p w))) (out (snd (snd (combat_loop n d e p w))))"
proof (induction n arbitrary: e p w)
  case 0
  then show ?case by (simp add: split_beta post_combat_stable [OF st])
next
  case (Suc n)
  show ?case
  proof (cases "0 < e \<and> alive p")
    case False
    then show ?thesis using Suc.prems by (auto simp add: split_beta post_combat_stable [OF st])
  next
    case True
    then have a: "s \<longrightarrow> alive p" by simp
    have r: "Q (rr_player (combat_round d e p w)) (out (rr_world (combat_round d e p w)))"
      by (rule combat_round_stable [OF st Suc.prems a])
    show ?thesis
    proof (cases "combat_round d e p w")
      case (Continue e1 p1 w1)
      with r have "Q p1 (out w1)" by simp
      from Suc.IH [OF this] True Continue show ?thesis by simp
    next
      case (Return b p1 w1)
      with r True show ?thesis by simp
    qed
  qed
qed

lemma combat_encounter_stable:
  assumes st: "stable s Q" and q: "Q p (out w)"
  shows "Q (fst (snd (combat_encounter n p d w))) (out (snd (snd (combat_encounter n p d w))))"
proof -
  have q1: "Q p (out (snd (roll 10 (say Combat_Initiated w))))"
    using stable_say [OF st q, of Combat_Initiated] by simp
  have q2: "Q (p\<lparr>alive := False\<rparr>) (out (say Instant_Fatality (snd (roll 10 (say Combat_Initiated w)))))"
    using stable_say [OF st stable_kill [OF st q1], of Instant_Fatality] by simp
  show ?thesis
    unfolding combat_encounter_def split_beta
    using q2 by (simp add: combat_loop_stable [OF st q1])
qed

lemma village_checkpoint_stable:
  assumes st: "stable s Q" and q: "Q p (out w)"
  shows "Q (fst (snd (village_checkpoint n p w))) (out (snd (snd (village_checkpoint n p w))))"
  using q unfolding village_checkpoint_def split_beta loot_def
  by (simp add: combat_encounter_stable [OF st] stable_rules [OF st])

lemma mountain_pass_stable:
  assumes st: "stable s Q" and q: "Q p (out w)" and a: "s \<longrightarrow> alive p"
  shows "Q (fst (snd (mountain_pass n p w))) (out (snd (snd (mountain_pass n p w))))"
  using q a unfolding mountain_pass_def split_beta loot_def Let_def
  by (simp add: combat_encounter_stable [OF st] stable_rules [OF st] del: append_assoc)

lemma abandoned_base_stable:
  assumes st: "stable s Q" and q: "Q p (out w)"
  shows "Q (fst (snd (abandoned_base n p w))) (out (snd (snd (abandoned_base n p w))))"
  using q unfolding abandoned_base_def split_beta loot_def
  by (simp add: combat_encounter_stable [OF st] stable_rules [OF st])

lemma night_raze_stable:
  assumes st: "stable s Q" and q: "Q p (out w)"
  shows "Q (fst (snd (night_raze n p w))) (out (snd (snd (night_raze n p w))))"
  using q unfolding night_raze_def split_beta loot_def
  by (simp add: combat_encounter_stable [OF st] stable_rules [OF st])

lemma convoy_ambush_stable:
  assumes st: "stable s Q" and q: "Q p (out w)" and a: "s \<longrightarrow> alive p"
  shows "Q (fst (snd (convoy_ambush n p w))) (out (snd (snd (convoy_ambush n p w))))"
  using q a unfolding convoy_ambush_def split_beta loot_def
  by (simp add: combat_encounter_stable [OF st] stable_rules [OF st] del: append_assoc)

lemma encounter_menu_stable:
  assumes st: "stable s Q" and q: "Q p (out w)" and a: "s \<longrightarrow> alive p"
  shows "Q (fst (snd (encounter_menu n p x w))) (out (snd (snd (encounter_menu n p x w))))"
  using q a unfolding encounter_menu_def split_beta
  by (simp add: village_checkpoint_stable [OF st] mountain_pass_stable [OF st]
        abandoned_base_stable [OF st] night_raze_stable [OF st] convoy_ambush_stable [OF st])

section \<open>A failed encounter is a dead player\<close>

lemma attempt_flee_failed [simp]: "\<not> rr_failed (attempt_flee d e p w)"
  by (simp add: attempt_flee_def split_beta)

lemma retaliate_failed [simp]: "\<not> rr_failed (retaliate d e p w)"
  by (simp add: retaliate_def split_beta)

lemma take_cover_failed [simp]: "\<not> rr_failed (take_cover d e p w)"
  by (simp add: take_cover_def split_beta Let_def)

lemma enemy_counterattack_failed:
  "rr_failed (enemy_counterattack d e p w) \<Longrightarrow> \<not> alive (rr_player (enemy_counterattack d e p w))"
  by (simp add: enemy_counterattack_def split_beta split: if_splits)

lemma shoot_and_counter_failed:
  "rr_failed (shoot_and_counter k d e p w) \<Longrightarrow> \<not> alive (rr_player (shoot_and_counter k d e p w))"
  unfolding shoot_and_counter_def split_beta by (rule enemy_counterattack_failed)

lemma combat_round_failed:
  "rr_failed (combat_round d e p w) \<Longrightarrow> \<not> alive (rr_player (combat_round d e p w))"
  unfolding combat_round_def split_beta
  by (auto split: if_splits dest: shoot_and_counter_failed)

lemma post_combat_failed:
  "\<not> fst (post_combat d p w) \<Longrightarrow> \<not> alive (fst (snd (post_combat d p w)))"
  by (simp add: post_combat_def split_beta split: if_splits)

lemma combat_loop_failed:
  "fst (combat_loop n d e p w) = Some False \<Longrightarrow> \<not> alive (fst (snd (combat_loop n d e p w)))"
proof (induction n arbitrary: e p w)
  case 0
  then show ?case using post_combat_failed [of d p w] by (simp add: split_beta split: if_splits)
next
  case (Suc n)
  show ?case
  proof (cases "0 < e \<and> alive p")
    case False
    then show ?thesis using Suc.prems post_combat_failed [of d p w]
      by (auto simp add: split_beta)
  next
    case True
    show ?thesis
    proof (cases "combat_round d e p w")
      case (Continue e1 p1 w1)
      with Suc.prems True have "fst (combat_loop n d e1 p1 w1) = Some False" by simp
      from Suc.IH [OF this] True Continue show ?thesis by simp
    next
      case (Return b p1 w1)
      with Suc.prems True combat_round_failed [of d e p w] show ?thesis by simp
    qed
  qed
qed

lemma combat_encounter_failed:
  "fst (combat_encounter n p d w) = Some False \<Longrightarrow> \<not> alive (fst (snd (combat_encounter n p d w)))"
  unfolding combat_encounter_def split_beta
  by (auto split: if_splits dest: combat_loop_failed)

lemma village_checkpoint_failed:
  "fst (village_checkpoint n p w) = Some False \<Longrightarrow> \<not> alive (fst (snd (village_checkpoint n p w)))"
  unfolding village_checkpoint_def split_beta
  by (auto split: if_splits dest: combat_encounter_failed)

lemma mountain_pass_failed:
  "fst (mountain_pass n p w) = Some False \<Longrightarrow> \<not> alive (fst (snd (mountain_pass n p w)))"
  unfolding mountain_pass_def split_beta Let_def
  by (auto split: if_splits dest: combat_encounter_failed)

lemma abandoned_base_failed:
  "fst (abandoned_base n p w) = Some False \<Longrightarrow> \<not> alive (fst (snd (abandoned_base n p w)))"
  unfolding abandoned_base_def split_beta
  by (auto split: if_splits dest: combat_encounter_failed)

lemma night_raze_failed:
  "fst (night_raze n p w) = Some False \<Longrightarrow> \<not> alive (fst (snd (night_raze n p w)))"
  unfolding night_raze_def split_beta
  by (auto split: if_splits dest: combat_encounter_failed)

lemma convoy_ambush_failed:
  "fst (convoy_ambush n p w) = Some False \<Longrightarrow> \<not> alive (fst (snd (convoy_ambush n p w)))"
  unfolding convoy_ambush_def split_beta
  by (auto split: if_splits dest: combat_encounter_failed)

lemma encounter_menu_failed:
  "fst (encounter_menu n p x w) = Some False \<Longrightarrow> \<not> alive (fst (snd (encounter_menu n p x w)))"
  unfolding encounter_menu_def split_beta
  by (auto split: if_splits dest: village_checkpoint_failed mountain_pass_failed
        abandoned_base_failed night_raze_failed convoy_ambush_failed)

section \<open>The mission sequence\<close>

lemma post_mission_rest_stable:
  assumes st: "stable s Q" and q: "Q p (out w)"
  shows "Q (fst (post_mission_rest p w)) (out (snd (post_mission_rest p w)))"
  using q by (simp add: post_mission_rest_def split_beta stable_rules [OF st] del: append_assoc)

lemma alive_post_mission_rest [simp]: "alive (fst (post_mission_rest p w)) = alive p"
  by (simp add: post_mission_rest_def split_beta)

lemma after_mission_stable:
  assumes st: "stable s Q" and q: "Q p (out w)" and f: "\<not> success \<longrightarrow> \<not> alive p"
  shows "case after_mission success p w of
           Inl (b, p', w') \<Rightarrow> Q p' (out w')
         | Inr (p', w') \<Rightarrow> Q p' (out w') \<and> alive p'"
proof -
  have q1: "Q (p\<lparr>missions_completed := missions_completed p + 1\<rparr>) (out (say Mission_Accomplished w))"
    using stable_say [OF st stable_missions [OF st q], of Mission_Accomplished] by simp
  have q2: "Q p (out (say Fallen w))"
    using stable_say [OF st q, of Fallen] by simp
  show ?thesis
    using f q2 post_mission_rest_stable [OF st q1]
    by (auto simp add: after_mission_def split_beta)
qed

lemma play_mission_sequence_stable:
  assumes st: "stable s Q"
  shows "Q p (out w) \<Longrightarrow> s \<longrightarrow> alive p \<Longrightarrow>
     Q (fst (snd (play_mission_sequence n m p w))) (out (snd (snd (play_mission_sequence n m p w))))"
proof (induction m arbitrary: p w)
  case 0
  then show ?case by simp
next
  case (Suc m)
  let ?w1 = "snd (random_choice ENCOUNTERS w)"
  let ?x = "fst (random_choice ENCOUNTERS w)"
  let ?r = "encounter_menu n p ?x ?w1"
  have q1: "Q p (out ?w1)" using Suc.prems(1) by simp
  have qr: "Q (fst (snd ?r)) (out (snd (snd ?r)))"
    by (rule encounter_menu_stable [OF st q1 Suc.prems(2)])
  show ?case
  proof (cases "fst ?r")
    case None
    then show ?thesis using qr by (simp add: split_beta)
  next
    case (Some success)
    have f: "\<not> success \<longrightarrow> \<not> alive (fst (snd ?r))"
      using Some encounter_menu_failed [of n p ?x ?w1] by auto
    note am = after_mission_stable [OF st qr f]
    show ?thesis
    proof (cases "after_mission success (fst (snd ?r)) (snd (snd ?r))")
      case (Inl t)
      then show ?thesis using am Some by (simp add: split_beta)
    next
      case (Inr t)
      with am have "Q (fst t) (out (snd t))" and "s \<longrightarrow> alive (fst t)"
        by (simp_all add: split_beta)
      from Suc.IH [OF this] Inr Some show ?thesis by (simp add: split_beta)
    qed
  qed
qed

section \<open>Scripted runs\<close>

text \<open>
  The definitions with which a concrete run of the program is evaluated.
\<close>

lemmas run_defs = main_def final_resolution_def final_outcome_def summary_def
  after_mission_def post_mission_rest_def encounter_menu_def
  village_checkpoint_def mountain_pass_def abandoned_base_def night_raze_def convoy_ambush_def
  combat_encounter_def post_combat_def combat_round_def attempt_flee_def use_special_def
  retaliate_def take_cover_def shoot_def base_hit_chance_def enemy_counterattack_def
  shoot_and_counter_def loot_def damaged_def healed_def
  say_def roll_def roll_if_def roll_unless_def random_choice_def randint_def choose_option_def
  ENCOUNTERS_def Player_def keyed_world_def constant_world_def

section \<open>Death is permanent\<close>

lemma stable_dead: "stable False (\<lambda>p es. \<not> alive p)"
  by (simp add: stable_def)

lemma alive_final_resolution: "alive (fst (snd (final_resolution p w))) \<Longrightarrow> alive p"
  by (simp add: final_resolution_def final_outcome_def split_beta split: if_splits)

text \<open>
  Claim C5: once the player's \<open>alive\<close> flag is false, no later operation sets it
  back to true. Damage, healing, the Medic's rest after a mission, a combat, an
  encounter, the whole mission sequence (for every number of missions and every
  bound on combat rounds, whether the sequence finishes or is cut off) and the
  final resolution all return a dead player when given a dead player.
\<close>

theorem death_is_permanent:
  "\<not> alive p \<Longrightarrow>
     \<not> alive (fst (take_damage a p w)) \<and>
     \<not> alive (fst (heal a p w)) \<and>
     \<not> alive (fst (post_mission_rest p w)) \<and>
     \<not> alive (fst (snd (combat_encounter n p d w))) \<and>
     \<not> alive (fst (snd (encounter_menu n p x w))) \<and>
     \<not> alive (fst (snd (play_mission_sequence n m p w))) \<and>
     \<not> alive (fst (snd (final_resolution p w)))"
  using combat_encounter_stable [OF stable_dead, where p = p and w = w and n = n and d = d]
    encounter_menu_stable [OF stable_dead, where p = p and w = w and n = n and x = x]
    play_mission_sequence_stable [OF stable_dead, where p = p and w = w and n = n and m = m]
    alive_final_resolution [where p = p and w = w]
  by auto

theorem death_is_permanent_witness:
  "\<not> alive fallen_medic \<and>
   \<not> alive (fst (heal 1 fallen_medic (constant_world 0 0 0))) \<and>
   hp (fst (heal 1 fallen_medic (constant_world 0 0 0))) = 3 \<and>
   \<not> alive (fst (post_mission_rest fallen_medic (constant_world 0 0 0))) \<and>
   \<not> alive (fst (snd (play_mission_sequence 5 3 fallen_medic (constant_world 0 0 0)))) \<and>
   \<not> alive (fst (snd (final_resolution fallen_medic (constant_world 0 0 0))))"
  using death_is_permanent [where p = fallen_medic and a = 1 and w = "constant_world 0 0 0"
      and n = 5 and m = 3]
  by (simp add: fallen_medic_def Player_def)

section \<open>A mission fails only by death\<close>

lemma stable_no_event:
  "\<not> plain x \<Longrightarrow> x \<noteq> Medic_Heal \<Longrightarrow> x \<noteq> Perfect_Headshot \<Longrightarrow>
   (\<forall>a h. x \<noteq> Take_Damage a h) \<Longrightarrow> (\<forall>a h. x \<noteq> Heal a h) \<Longrightarrow>
   stable False (\<lambda>p es. x \<notin> set es)"
  by (auto simp add: stable_def)

text \<open>
  Claim C9: whenever a combat, one of the five encounters or the dispatcher
  \<open>encounter_menu\<close> returns false, the player's \<open>alive\<close> flag is false. So the
  branch of \<open>play_mission_sequence\<close> that continues after a failed mission with
  a living player is never taken: its line "Mission had complications, but you
  push on." (the event \<open>Push_On\<close>) is never printed by the mission sequence.
\<close>

theorem failure_means_death:
  "(fst (combat_encounter n p d w) = Some False \<longrightarrow> \<not> alive (fst (snd (combat_encounter n p d w)))) \<and>
   (fst (village_checkpoint n p w) = Some False \<longrightarrow> \<not> alive (fst (snd (village_checkpoint n p w)))) \<and>
   (fst (mountain_pass n p w) = Some False \<longrightarrow> \<not> alive (fst (snd (mountain_pass n p w)))) \<and>
   (fst (abandoned_base n p w) = Some False \<longrightarrow> \<not> alive (fst (snd (abandoned_base n p w)))) \<and>
   (fst (night_raze n p w) = Some False \<longrightarrow> \<not> alive (fst (snd (night_raze n p w)))) \<and>
   (fst (convoy_ambush n p w) = Some False \<longrightarrow> \<not> alive (fst (snd (convoy_ambush n p w)))) \<and>
   (fst (encounter_menu n p x w) = Some False \<longrightarrow> \<not> alive (fst (snd (encounter_menu n p x w)))) \<and>
   (Push_On \<notin> set (out w) \<longrightarrow>
      Push_On \<notin> set (out (snd (snd (play_mission_sequence n m p w)))))"
  using combat_encounter_failed [of n p d w] village_checkpoint_failed [of n p w]
    mountain_pass_failed [of n p w] abandoned_base_failed [of n p w]
    night_raze_failed [of n p w] convoy_ambush_failed [of n p w]
    encounter_menu_failed [of n p x w]
    play_mission_sequence_stable [OF stable_no_event [of Push_On],
      where p = p and w = w and n = n and m = m]
  by simp

theorem failure_means_death_witness:
  "fst (convoy_ambush 4 ((Player ''Ann'' Medic)\<lparr>hp := 1\<rparr>) (constant_world (1/2) 0 1)) = Some False \<and>
   \<not> alive (fst (snd (convoy_ambush 4 ((Player ''Ann'' Medic)\<lparr>hp := 1\<rparr>) (constant_world (1/2) 0 1)))) \<and>
   Push_On \<notin> set (out (constant_world (1/2) 0 1)) \<and>
   Push_On \<notin> set (out (snd (snd (play_mission_sequence 4 2 ((Player ''Ann'' Medic)\<lparr>hp := 1\<rparr>)
       (constant_world (1/2) 0 1)))))"
  using failure_means_death [where n = 4 and p = "(Player ''Ann'' Medic)\<lparr>hp := 1\<rparr>"
      and w = "constant_world (1/2) 0 1" and m = 2]
  by (simp add: convoy_ambush_def Player_def constant_world_def choose_option_def roll_if_def
      roll_def say_def damaged_def)

section \<open>The instant-fatality roll\<close>

text \<open>
  Neither opening line of a combat is printed by the round loop or by the code
  after it.
\<close>

lemma attempt_flee_prelude:
  "prelude x \<Longrightarrow> count_list (out (rr_world (attempt_flee d e p w))) x = count_list (out w) x"
  by (auto simp add: prelude_def attempt_flee_def split_beta)

lemma use_special_prelude:
  "prelude x \<Longrightarrow> count_list (out (snd (snd (snd (use_special e p w))))) x = count_list (out w) x"
  by (auto simp add: prelude_def use_special_def split_beta)

lemma retaliate_prelude:
  "prelude x \<Longrightarrow> count_list (out (rr_world (retaliate d e p w))) x = count_list (out w) x"
  by (auto simp add: prelude_def retaliate_def split_beta)

lemma take_cover_prelude:
  "prelude x \<Longrightarrow> count_list (out (rr_world (take_cover d e p w))) x = count_list (out w) x"
  by (auto simp add: prelude_def take_cover_def split_beta Let_def)

lemma shoot_prelude:
  "prelude x \<Longrightarrow> count_list (out (snd (shoot k d e p w))) x = count_list (out w) x"
  by (auto simp add: prelude_def shoot_def split_beta Let_def)

lemma enemy_counterattack_prelude:
  "prelude x \<Longrightarrow> count_list (out (rr_world (enemy_counterattack d e p w))) x = count_list (out w) x"
  by (auto simp add: prelude_def enemy_counterattack_def split_beta)

lemma shoot_and_counter_prelude:
  "prelude x \<Longrightarrow> count_list (out (rr_world (shoot_and_counter k d e p w))) x = count_list (out w) x"
  by (simp add: shoot_and_counter_def split_beta enemy_counterattack_prelude shoot_prelude)

lemma combat_round_prelude:
  "prelude x \<Longrightarrow> count_list (out (rr_world (combat_round d e p w))) x = count_list (out w) x"
  by (auto simp add: combat_round_def split_beta attempt_flee_prelude retaliate_prelude
        use_special_prelude take_cover_prelude shoot_and_counter_prelude prelude_def)

lemma post_combat_prelude:
  "prelude x \<Longrightarrow> count_list (out (snd (snd (post_combat d p w)))) x = count_list (out w) x"
  by (auto simp add: prelude_def post_combat_def split_beta)

lemma combat_loop_prelude:
  "prelude x \<Longrightarrow> count_list (out (snd (snd (combat_loop n d e p w)))) x = count_list (out w) x"
proof (induction n arbitrary: e p w)
  case 0
  then show ?case by (simp add: split_beta post_combat_prelude)
next
  case (Suc n)
  show ?case
  proof (cases "combat_round d e p w")
    case (Continue e1 p1 w1)
    with combat_round_prelude [OF Suc.prems, of d e p w] Suc.IH [OF Suc.prems, of e1 p1 w1]
    show ?thesis by (simp add: split_beta post_combat_prelude [OF Suc.prems])
  next
    case (Return b p1 w1)
    with combat_round_prelude [OF Suc.prems, of d e p w]
    show ?thesis by (simp add: split_beta post_combat_prelude [OF Suc.prems])
  qed
qed

text \<open>
  Claim C3: every call of \<open>combat_encounter\<close> makes the 10 percent roll for the
  instant fatal headshot once, before the round loop. When the roll succeeds
  (for a draw that \<^verbatim>\<open>random.random()\<close> can return: when it is below one tenth)
  the function returns false with the \<open>alive\<close> flag cleared, after that one draw
  and the two lines it prints; the result is the same for every difficulty and
  every bound on the rounds, so the enemy's hit points are neither set nor read.
  Otherwise the call is the round loop, started with the enemy's hit points equal
  to the difficulty, in the state in which exactly that one draw is consumed. In
  both cases the call prints its opening line once, and the line of the instant
  fatality once if the roll succeeded and not at all otherwise: the round loop
  never repeats the roll's outcome.
\<close>

theorem instant_fatality_before_loop:
  "(fst (roll 10 w) \<longrightarrow>
      combat_encounter n p d w =
        (Some False, p\<lparr>alive := False\<rparr>,
         say Instant_Fatality ((say Combat_Initiated w)\<lparr>drawn := Suc (drawn w)\<rparr>))) \<and>
   (\<not> fst (roll 10 w) \<longrightarrow>
      combat_encounter n p d w =
        combat_loop n d d p ((say Combat_Initiated w)\<lparr>drawn := Suc (drawn w)\<rparr>)) \<and>
   count_list (out (snd (snd (combat_encounter n p d w)))) Combat_Initiated =
     count_list (out w) Combat_Initiated + 1 \<and>
   count_list (out (snd (snd (combat_encounter n p d w)))) Instant_Fatality =
     count_list (out w) Instant_Fatality + (if fst (roll 10 w) then 1 else 0) \<and>
   (draws w (drawn w) = real k / 2 ^ 53 \<longrightarrow>
      fst (roll 10 w) = (draws w (drawn w) < 10 / 100))"
proof -
  have a: "combat_encounter n p d w =
     (if fst (roll 10 w)
      then (Some False, p\<lparr>alive := False\<rparr>,
            say Instant_Fatality ((say Combat_Initiated w)\<lparr>drawn := Suc (drawn w)\<rparr>))
      else combat_loop n d d p ((say Combat_Initiated w)\<lparr>drawn := Suc (drawn w)\<rparr>))"
    by (simp add: combat_encounter_def roll_def say_def)
  have b: "prelude Combat_Initiated" "prelude Instant_Fatality"
    by (simp_all add: prelude_def)
  have c: "draws w (drawn w) = real k / 2 ^ 53 \<longrightarrow>
      fst (roll 10 w) = (draws w (drawn w) < 10 / 100)"
    by (simp add: roll_10_on_grid)
  show ?thesis
    unfolding a using c
    by (simp add: combat_loop_prelude [OF b(1)] combat_loop_prelude [OF b(2)])
qed

theorem instant_fatality_before_loop_witness:
  "fst (roll 10 (constant_world (1/16) 0 0)) \<and>
   draws (constant_world (1/16) 0 0) (drawn (constant_world (1/16) 0 0)) = real (2 ^ 49) / 2 ^ 53 \<and>
   draws (constant_world (1/16) 0 0) (drawn (constant_world (1/16) 0 0)) < 10 / 100 \<and>
   combat_encounter 0 (Player ''Ann'' Soldier) 3 (constant_world (1/16) 0 0) =
     (Some False, (Player ''Ann'' Soldier)\<lparr>alive := False\<rparr>,
      (constant_world (1/16) 0 0)\<lparr>drawn := 1, out := [Combat_Initiated, Instant_Fatality]\<rparr>) \<and>
   \<not> fst (roll 10 (constant_world (1/2) 0 0)) \<and>
   combat_encounter 0 (Player ''Ann'' Soldier) 3 (constant_world (1/2) 0 0) =
     (None, Player ''Ann'' Soldier, (constant_world (1/2) 0 0)\<lparr>drawn := 1, out := [Combat_Initiated]\<rparr>)"
  using instant_fatality_before_loop [where w = "constant_world (1/16) 0 0" and n = 0
      and p = "Player ''Ann'' Soldier" and d = 3 and k = "2 ^ 49"]
    instant_fatality_before_loop [where w = "constant_world (1/2) 0 0" and n = 0
      and p = "Player ''Ann'' Soldier" and d = 3 and k = "2 ^ 52"]
  by (simp add: constant_world_def say_def Player_def roll_def)

section \<open>Medic heal and Sniper shot fire at most once\<close>

lemma stable_charges: "stable False (charges k j)"
  by (simp add: stable_def charges_def)

lemma stable_not_replenished:
  "stable False (\<lambda>p es. mission_heals p \<le> k \<and> (u \<longrightarrow> sniper_special_used p))"
  by (simp add: stable_def)

lemma main_count:
  "e = Medic_Heal \<or> e = Perfect_Headshot \<Longrightarrow>
   count_list (out (snd (snd (main n nm r m w)))) e =
   count_list (out (snd (snd (play_mission_sequence n m (Player nm r) w)))) e"
  by (auto simp add: main_def final_resolution_def final_outcome_def summary_def split_beta
        split: option.split)

text \<open>
  Claim C4: a new player has one heal charge if the role is Medic and none
  otherwise, and the Sniper's flag is unset. In a whole run of \<open>main\<close>, for every
  number of missions and every bound on combat rounds, the line of the Medic's
  heal is printed at most once (never for another role) and the line of the
  Sniper's shot at most once, on top of what the console held before. Nothing in
  the mission sequence raises the number of charges or clears the flag.
\<close>

theorem abilities_fire_at_most_once:
  "mission_heals (Player nm r) = (if r = Medic then 1 else 0) \<and>
   \<not> sniper_special_used (Player nm r) \<and>
   count_list (out (snd (snd (main n nm r m w)))) Medic_Heal
     \<le> count_list (out w) Medic_Heal + (if r = Medic then 1 else 0) \<and>
   count_list (out (snd (snd (main n nm r m w)))) Perfect_Headshot
     \<le> count_list (out w) Perfect_Headshot + 1 \<and>
   mission_heals (fst (snd (play_mission_sequence n m p w))) \<le> mission_heals p \<and>
   (sniper_special_used p \<longrightarrow> sniper_special_used (fst (snd (play_mission_sequence n m p w))))"
proof -
  let ?k = "int (count_list (out w) Medic_Heal) + (if r = Medic then 1 else 0)"
  let ?j = "count_list (out w) Perfect_Headshot + 1"
  let ?r = "play_mission_sequence n m (Player nm r) w"
  have "charges ?k ?j (Player nm r) (out w)"
    by (simp add: charges_def Player_def)
  then have "charges ?k ?j (fst (snd ?r)) (out (snd (snd ?r)))"
    by (rule play_mission_sequence_stable [OF stable_charges]) simp
  then have c: "int (count_list (out (snd (snd ?r))) Medic_Heal) \<le> ?k"
    "count_list (out (snd (snd ?r))) Perfect_Headshot \<le> ?j"
    by (auto simp add: charges_def split: if_splits)
  have m: "mission_heals (fst (snd (play_mission_sequence n m p w))) \<le> mission_heals p \<and>
    (sniper_special_used p \<longrightarrow> sniper_special_used (fst (snd (play_mission_sequence n m p w))))"
    by (rule play_mission_sequence_stable [OF stable_not_replenished]) simp_all
  show ?thesis
    using c m by (auto simp add: main_count Player_def split: if_splits)
qed

theorem abilities_fire_at_most_once_witness:
  "count_list (out (snd (snd (main (Suc (Suc 0)) ''Bo'' Sniper (Suc 0)
      (keyed_world (1/2) 0 [2, 5]))))) Perfect_Headshot = 1 \<and>
   sniper_special_used ((Player ''Bo'' Sniper)\<lparr>sniper_special_used := True\<rparr>) \<and>
   sniper_special_used (fst (snd (play_mission_sequence (Suc (Suc 0)) (Suc 0)
      ((Player ''Bo'' Sniper)\<lparr>sniper_special_used := True\<rparr>) (keyed_world (1/2) 0 [2, 5]))))"
  using abilities_fire_at_most_once [where n = "Suc (Suc 0)" and m = "Suc 0" and nm = "''Bo''"
      and r = Sniper and w = "keyed_world (1/2) 0 [2, 5]"
      and p = "(Player ''Bo'' Sniper)\<lparr>sniper_special_used := True\<rparr>"]
  by (simp add: run_defs)

section \<open>Hit points stay between 0 and 3\<close>

lemma plain_hp_event_ok: "plain e \<Longrightarrow> hp_event_ok e"
  by (cases e) simp_all

lemma stable_hp_ok: "stable True hp_ok"
  by (auto simp add: stable_def hp_ok_def plain_hp_event_ok)

text \<open>
  Claim C10: in a run of \<open>main\<close> from an empty console, for every number of
  missions and every bound on combat rounds (so also at every point at which a
  combat is cut off between two rounds), the hit points are between 0 and 3, and
  a player with 0 hit points is not alive. Every damage event takes exactly one
  point and leaves a value from 0 to 2, so no damage is ever applied at 0 hit
  points; and the summary prints the hit points themselves: its clamp to 0 never
  changes the value.
\<close>

theorem hp_never_negative:
  assumes "out w = []" and "main n nm r m w = (fin, p', w')"
  shows "0 \<le> hp p' \<and> hp p' \<le> 3 \<and> (hp p' = 0 \<longrightarrow> \<not> alive p') \<and>
     (\<forall>a h. Take_Damage a h \<in> set (out w') \<longrightarrow> a = 1 \<and> 0 \<le> h \<and> h \<le> 2) \<and>
     (\<forall>a h. Heal a h \<in> set (out w') \<longrightarrow> a = 1 \<and> 1 \<le> h \<and> h \<le> 3) \<and>
     (\<forall>v. Final_HP v \<in> set (out w') \<longrightarrow> v = hp p')"
proof -
  let ?r = "play_mission_sequence n m (Player nm r) w"
  have "hp_ok (Player nm r) (out w)"
    using assms(1) by (simp add: hp_ok_def Player_def)
  then have h: "hp_ok (fst (snd ?r)) (out (snd (snd ?r)))"
    by (rule play_mission_sequence_stable [OF stable_hp_ok]) (simp add: Player_def)
  have e: "\<And>a h. Take_Damage a h \<in> set (out (snd (snd ?r))) \<Longrightarrow> a = 1 \<and> 0 \<le> h \<and> h \<le> 2"
    "\<And>a h. Heal a h \<in> set (out (snd (snd ?r))) \<Longrightarrow> a = 1 \<and> 1 \<le> h \<and> h \<le> 3"
    "\<And>v. Final_HP v \<notin> set (out (snd (snd ?r)))"
    using h by (auto simp add: hp_ok_def dest: bspec)
  have b: "0 \<le> hp (fst (snd ?r))" "hp (fst (snd ?r)) \<le> 3" "alive (fst (snd ?r)) \<longrightarrow> 1 \<le> hp (fst (snd ?r))"
    using h by (simp_all add: hp_ok_def)
  show ?thesis
    using assms(2) e b
    by (auto simp add: main_def final_resolution_def final_outcome_def summary_def split_beta
          split: option.splits if_splits)
qed

theorem hp_never_negative_witness:
  "out (constant_world (1/2) 4 1) = [] \<and>
   hp (fst (snd (main (Suc 0) ''Ann'' Medic (Suc (Suc (Suc 0))) (constant_world (1/2) 4 1)))) = 0 \<and>
   \<not> alive (fst (snd (main (Suc 0) ''Ann'' Medic (Suc (Suc (Suc 0))) (constant_world (1/2) 4 1)))) \<and>
   out (snd (snd (main (Suc 0) ''Ann'' Medic (Suc (Suc (Suc 0))) (constant_world (1/2) 4 1)))) =
     [Take_Damage 1 2, Mission_Accomplished, Take_Damage 1 1, Mission_Accomplished,
      Take_Damage 1 0, Fallen, Game_Over, Final_HP 0, Status_Deceased]"
  using hp_never_negative [where w = "constant_world (1/2) 4 1" and n = "Suc 0" and nm = "''Ann''"
      and r = Medic and m = "Suc (Suc (Suc 0))"
      and fin = "fst (main (Suc 0) ''Ann'' Medic (Suc (Suc (Suc 0))) (constant_world (1/2) 4 1))"
      and p' = "fst (snd (main (Suc 0) ''Ann'' Medic (Suc (Suc (Suc 0))) (constant_world (1/2) 4 1)))"
      and w' = "snd (snd (main (Suc 0) ''Ann'' Medic (Suc (Suc (Suc 0))) (constant_world (1/2) 4 1)))"]
  by (simp add: run_defs)

section \<open>The final resolution\<close>

lemma main_extraction:
  assumes "Extraction_Begins \<in> set (out (snd (snd (main n nm r m w))))"
    and "Extraction_Begins \<notin> set (out (snd (snd (play_mission_sequence n m (Player nm r) w))))"
  shows "fst (play_mission_sequence n m (Player nm r) w) = Some True \<and>
         alive (fst (snd (play_mission_sequence n m (Player nm r) w)))"
  using assms
  by (auto simp add: main_def summary_def split_beta split: option.splits if_splits)

text \<open>
  Claim C6: \<open>final_resolution\<close> draws one integer with \<^verbatim>\<open>random.randint(1, 100)\<close>,
  which lies between 1 and 100 and consumes one pick, and decides on it alone:
  1 to 10 is the instant death, 11 to 55 the safe return, 56 to 100 the death from
  injuries, and both deaths clear the \<open>alive\<close> flag. Of the hundred values, 10,
  45 and 45 lead to the three outcomes (with a uniform draw these are the
  probabilities 0.10, 0.45 and 0.45). In \<open>main\<close> the final resolution is reached,
  and its opening line printed, only when the mission sequence has returned true
  with the player alive.
\<close>

theorem final_resolution_outcomes:
  "final_resolution p w =
     final_outcome (fst (randint 1 100 (say Extraction_Begins w))) p
       (snd (randint 1 100 (say Extraction_Begins w))) \<and>
   1 \<le> fst (randint 1 100 w) \<and> fst (randint 1 100 w) \<le> 100 \<and>
   picked (snd (randint 1 100 w)) = Suc (picked w) \<and>
   (1 \<le> v \<and> v \<le> 10 \<longrightarrow>
      final_outcome v p w = (False, p\<lparr>alive := False\<rparr>, say Tragic_Luck w)) \<and>
   (11 \<le> v \<and> v \<le> 55 \<longrightarrow> final_outcome v p w = (True, p, say Home_Safely w)) \<and>
   (56 \<le> v \<and> v \<le> 100 \<longrightarrow>
      final_outcome v p w = (False, p\<lparr>alive := False\<rparr>, say Wounds_Toll w)) \<and>
   card {v. 1 \<le> v \<and> v \<le> 100 \<and> out (snd (snd (final_outcome v p w))) = out w @ [Tragic_Luck]} = 10 \<and>
   card {v. 1 \<le> v \<and> v \<le> 100 \<and> out (snd (snd (final_outcome v p w))) = out w @ [Home_Safely]} = 45 \<and>
   card {v. 1 \<le> v \<and> v \<le> 100 \<and> out (snd (snd (final_outcome v p w))) = out w @ [Wounds_Toll]} = 45 \<and>
   (Extraction_Begins \<notin> set (out w) \<longrightarrow>
    Extraction_Begins \<in> set (out (snd (snd (main n nm r m w)))) \<longrightarrow>
      fst (play_mission_sequence n m (Player nm r) w) = Some True \<and>
      alive (fst (snd (play_mission_sequence n m (Player nm r) w))))"
proof -
  have a: "{v. 1 \<le> v \<and> v \<le> 100 \<and> out (snd (snd (final_outcome v p w))) = out w @ [Tragic_Luck]} = {1..10}"
    by (auto simp add: final_outcome_def split: if_splits)
  have b: "{v. 1 \<le> v \<and> v \<le> 100 \<and> out (snd (snd (final_outcome v p w))) = out w @ [Home_Safely]} = {11..55}"
    by (auto simp add: final_outcome_def split: if_splits)
  have c: "{v. 1 \<le> v \<and> v \<le> 100 \<and> out (snd (snd (final_outcome v p w))) = out w @ [Wounds_Toll]} = {56..100}"
    by (auto simp add: final_outcome_def split: if_splits)
  have d: "Extraction_Begins \<notin> set (out w) \<longrightarrow>
      Extraction_Begins \<notin> set (out (snd (snd (play_mission_sequence n m (Player nm r) w))))"
    using play_mission_sequence_stable [OF stable_no_event [of Extraction_Begins],
        where p = "Player nm r" and w = w and n = n and m = m]
    by simp
  have e: "1 \<le> fst (randint 1 100 w) \<and> fst (randint 1 100 w) \<le> 100 \<and>
     picked (snd (randint 1 100 w)) = Suc (picked w)"
    by (simp add: randint_def)
  show ?thesis
    unfolding a b c
    using d e main_extraction [of n nm r m w]
    by (simp add: final_resolution_def final_outcome_def split_beta)
qed

theorem final_resolution_outcomes_witness:
  "final_outcome 10 (Player ''Bo'' Sniper) (constant_world 0 0 0) =
     (False, (Player ''Bo'' Sniper)\<lparr>alive := False\<rparr>, say Tragic_Luck (constant_world 0 0 0)) \<and>
   final_outcome 11 (Player ''Bo'' Sniper) (constant_world 0 0 0) =
     (True, Player ''Bo'' Sniper, say Home_Safely (constant_world 0 0 0)) \<and>
   final_outcome 55 (Player ''Bo'' Sniper) (constant_world 0 0 0) =
     (True, Player ''Bo'' Sniper, say Home_Safely (constant_world 0 0 0)) \<and>
   final_outcome 56 (Player ''Bo'' Sniper) (constant_world 0 0 0) =
     (False, (Player ''Bo'' Sniper)\<lparr>alive := False\<rparr>, say Wounds_Toll (constant_world 0 0 0)) \<and>
   Extraction_Begins \<notin> set (out (keyed_world (1/2) 0 [2, 5])) \<and>
   Extraction_Begins \<in> set (out (snd (snd (main (Suc (Suc 0)) ''Bo'' Sniper (Suc 0)
      (keyed_world (1/2) 0 [2, 5]))))) \<and>
   fst (play_mission_sequence (Suc (Suc 0)) (Suc 0) (Player ''Bo'' Sniper)
      (keyed_world (1/2) 0 [2, 5])) = Some True \<and>
   alive (fst (snd (play_mission_sequence (Suc (Suc 0)) (Suc 0) (Player ''Bo'' Sniper)
      (keyed_world (1/2) 0 [2, 5]))))"
  using final_resolution_outcomes [where v = 10 and p = "Player ''Bo'' Sniper"
      and w = "constant_world 0 0 0"]
    final_resolution_outcomes [where v = 11 and p = "Player ''Bo'' Sniper"
      and w = "constant_world 0 0 0"]
    final_resolution_outcomes [where v = 55 and p = "Player ''Bo'' Sniper"
      and w = "constant_world 0 0 0"]
    final_resolution_outcomes [where v = 56 and p = "Player ''Bo'' Sniper"
      and w = "constant_world 0 0 0"]
    final_resolution_outcomes [where n = "Suc (Suc 0)" and nm = "''Bo''" and r = Sniper
      and m = "Suc 0" and w = "keyed_world (1/2) 0 [2, 5]"]
  by (simp add: run_defs)

end
